theory Spec2Isabelle
  imports Complex_Main "HOL-Library.Word"
begin

section \<open>generate\_ir.py: impulse-response synthesis and the WAV writer\<close>

text \<open>
  A shallow embedding of \<^verbatim>\<open>src/handheld-audio-enhance/generate_ir.py\<close>.

  Python's \<^verbatim>\<open>int\<close> is \<^typ>\<open>int\<close>. Python's \<^verbatim>\<open>float\<close> is a binary64 number, and the model
  treats it in two ways. Where a float decides a sample index (the conversion of a
  delay in milliseconds), each operation is rounded as the machine rounds it, to the
  nearest double with ties to even, and an overflow is an infinity that \<^verbatim>\<open>int\<close> refuses.
  The sample values (gains, their sums, the recurrence of the filter) and the divisors of
  the filter are exact reals: their rounding, overflow and underflow are outside the
  model, as are arguments that are infinite or NaN. Every exception the source can raise
  on these values is a value of \<open>error\<close>, returned as \<open>Inl\<close>.
\<close>

subsection \<open>Errors and Python list indexing\<close>

datatype error =
  IndexError
  | ZeroDivisionError
  | StructError
  | OverflowError
  | ValueError string

text \<open>
  \<^verbatim>\<open>xs[i]\<close> and \<^verbatim>\<open>xs[i] = v\<close> on a list of \<open>len\<close> elements: the indices \<open>0 \<dots> len-1\<close> are
  the positions, \<open>-len \<dots> -1\<close> address the same positions from the end, and any other
  index raises \<^verbatim>\<open>IndexError\<close>.
\<close>

definition py_index :: "nat \<Rightarrow> int \<Rightarrow> nat option" where
  "py_index len i =
     (if 0 \<le> i \<and> i < int len then Some (nat i)
      else if - int len \<le> i \<and> i < 0 then Some (nat (int len + i))
      else None)"

definition py_getitem :: "'a list \<Rightarrow> int \<Rightarrow> error + 'a" where
  "py_getitem xs i =
     (case py_index (length xs) i of None \<Rightarrow> Inl IndexError | Some j \<Rightarrow> Inr (xs ! j))"

definition py_setitem :: "'a list \<Rightarrow> int \<Rightarrow> 'a \<Rightarrow> error + 'a list" where
  "py_setitem xs i v =
     (case py_index (length xs) i of None \<Rightarrow> Inl IndexError | Some j \<Rightarrow> Inr (xs[j := v]))"

text \<open>\<^verbatim>\<open>int(x)\<close> on a float truncates towards zero.\<close>

definition py_int :: "real \<Rightarrow> int" where
  "py_int x = (if 0 \<le> x then \<lfloor>x\<rfloor> else \<lceil>x\<rceil>)"

subsection \<open>Constants (lines 26--29)\<close>

definition SAMPLE_RATE :: int where
  "SAMPLE_RATE = 48000"

definition IR_DURATION_MS :: int where
  "IR_DURATION_MS = 80"

definition IR_SAMPLES :: int where
  "IR_SAMPLES = py_int (real_of_int (SAMPLE_RATE * IR_DURATION_MS) / 1000)"

definition NUM_CHANNELS :: int where
  "NUM_CHANNELS = 4"

subsection \<open>Presets (lines 40--95)\<close>

record preset =
  direct_gain :: real
  reflections :: "(real \<times> real) list"
  cross_gain :: real
  cross_delay_ms :: real
  cross_lpf_freq :: real
  cross_reflections :: "(real \<times> real) list"

definition preset_light :: preset where
  "preset_light = \<lparr>
     direct_gain = 1,
     reflections = [(18/10, 8/100), (52/10, 5/100), (11, 3/100)],
     cross_gain = 15/100,
     cross_delay_ms = 25/100,
     cross_lpf_freq = 3000,
     cross_reflections = [(35/10, 4/100), (8, 2/100)] \<rparr>"

definition preset_medium :: preset where
  "preset_medium = \<lparr>
     direct_gain = 1,
     reflections = [(15/10, 12/100), (38/10, 9/100), (65/10, 6/100), (102/10, 4/100),
                    (15, 25/1000)],
     cross_gain = 25/100,
     cross_delay_ms = 30/100,
     cross_lpf_freq = 2500,
     cross_reflections = [(28/10, 6/100), (6, 4/100), (12, 2/100)] \<rparr>"

definition preset_heavy :: preset where
  "preset_heavy = \<lparr>
     direct_gain = 1,
     reflections = [(12/10, 18/100), (3, 14/100), (55/10, 10/100), (8, 7/100),
                    (12, 5/100), (18, 35/1000), (25, 2/100)],
     cross_gain = 35/100,
     cross_delay_ms = 35/100,
     cross_lpf_freq = 2000,
     cross_reflections = [(22/10, 10/100), (5, 6/100), (9, 4/100), (15, 2/100)] \<rparr>"

text \<open>The dictionary keeps its insertion order, which the error message of \<open>generate_ir\<close> prints.\<close>

definition PRESETS :: "(string \<times> preset) list" where
  "PRESETS = [(''light'', preset_light), (''medium'', preset_medium), (''heavy'', preset_heavy)]"

subsection \<open>Binary64 arithmetic\<close>

text \<open>
  \<open>fl x\<close> is the double nearest to the real \<open>x\<close>, as every float operation of the machine
  returns it for its exact result \<open>x\<close>: 53 significant bits, the unit in the last place not
  below \<open>2\<^sup>-\<^sup>1\<^sup>0\<^sup>7\<^sup>4\<close>, a tie going to the even significand, and \<open>None\<close> (an infinity) when
  the rounded magnitude reaches \<open>2\<^sup>1\<^sup>0\<^sup>2\<^sup>4\<close>.
\<close>

definition pow2 :: "int \<Rightarrow> real" where
  "pow2 e = (if 0 \<le> e then 2 ^ nat e else 1 / 2 ^ nat (- e))"

definition round_half_even :: "real \<Rightarrow> int" where
  "round_half_even r =
     (let f = \<lfloor>r\<rfloor>; d = r - real_of_int f
      in if d < 1 / 2 then f else if 1 / 2 < d then f + 1 else if even f then f else f + 1)"

definition fl :: "real \<Rightarrow> real option" where
  "fl x =
     (if x = 0 then Some 0
      else let u = max (\<lfloor>log 2 \<bar>x\<bar>\<rfloor> - 52) (- 1074);
               y = real_of_int (round_half_even (x / pow2 u)) * pow2 u
           in if \<bar>y\<bar> < 2 ^ 1024 then Some y else None)"

subsection \<open>\<open>ms_to_samples\<close> (lines 98--99)\<close>

text \<open>
  \<^verbatim>\<open>int(ms * SAMPLE_RATE / 1000)\<close>: the product and the quotient are float operations.
  An infinite product stays infinite under the division, and \<^verbatim>\<open>int\<close> of an infinity raises
  \<^verbatim>\<open>OverflowError\<close>.
\<close>

definition ms_to_samples :: "real \<Rightarrow> error + int" where
  "ms_to_samples ms =
     (case fl (ms * real_of_int SAMPLE_RATE) of
        None \<Rightarrow> Inl OverflowError
      | Some p \<Rightarrow> (case fl (p / 1000) of
                     None \<Rightarrow> Inl OverflowError
                   | Some q \<Rightarrow> Inr (py_int q)))"

subsection \<open>\<open>apply_lpf_to_impulse\<close> (lines 102--114)\<close>

text \<open>
  The loop \<^verbatim>\<open>for i in range(len(samples))\<close> with its two variables: the list, updated in
  place at \<open>i\<close>, and \<open>prev\<close>.
\<close>

function lpf_loop :: "real \<Rightarrow> real list \<Rightarrow> nat \<Rightarrow> real \<Rightarrow> real list" where
  "lpf_loop alpha samples i prev =
     (if i < length samples
      then (let prev' = prev + alpha * (samples ! i - prev)
            in lpf_loop alpha (samples[i := prev']) (Suc i) prev')
      else samples)"
  by pat_completeness auto
termination
  by (relation "measure (\<lambda>(alpha, samples, i, prev). length samples - i)") auto

declare lpf_loop.simps [simp del]

text \<open>
  Each of the three float divisions raises \<^verbatim>\<open>ZeroDivisionError\<close> on a zero divisor. The
  divisors are the exact ones here.
\<close>

definition apply_lpf_to_impulse :: "real list \<Rightarrow> real \<Rightarrow> real \<Rightarrow> error + real list" where
  "apply_lpf_to_impulse samples cutoff_hz sample_rate =
     (if 2 * pi * cutoff_hz = 0 then Inl ZeroDivisionError
      else let rc = 1 / (2 * pi * cutoff_hz) in
        if sample_rate = 0 then Inl ZeroDivisionError
        else let dt = 1 / sample_rate in
          if rc + dt = 0 then Inl ZeroDivisionError
          else let alpha = dt / (rc + dt) in
            Inr (lpf_loop alpha samples 0 0))"

subsection \<open>\<open>generate_channel\<close> (lines 117--138)\<close>

text \<open>Line 123: \<open>delay_samples\<close>.\<close>

definition main_index :: "bool \<Rightarrow> real \<Rightarrow> error + int" where
  "main_index is_cross cross_delay = (if is_cross then ms_to_samples cross_delay else Inr 0)"

text \<open>Lines 122--125: the main impulse.\<close>

definition main_impulse :: "real \<Rightarrow> bool \<Rightarrow> real \<Rightarrow> real list \<Rightarrow> error + real list" where
  "main_impulse gain is_cross cross_delay buf =
     (case main_index is_cross cross_delay of
        Inl e \<Rightarrow> Inl e
      | Inr delay_samples \<Rightarrow>
          if delay_samples < IR_SAMPLES then py_setitem buf delay_samples gain else Inr buf)"

text \<open>
  Line 129: \<open>total_delay\<close>. The sum of the two delays is a float addition; an infinite
  sum gives an infinite product in \<open>ms_to_samples\<close>, which raises.
\<close>

definition tap_index :: "bool \<Rightarrow> real \<Rightarrow> real \<times> real \<Rightarrow> error + int" where
  "tap_index is_cross cross_delay tap =
     (case fl (fst tap + (if is_cross then cross_delay else 0)) of
        None \<Rightarrow> Inl OverflowError
      | Some total_ms \<Rightarrow> ms_to_samples total_ms)"

text \<open>Lines 129--132: the body of the reflection loop, for the tap at position \<open>i\<close>.\<close>

definition reflection_tap ::
  "bool \<Rightarrow> real \<Rightarrow> nat \<Rightarrow> real \<times> real \<Rightarrow> real list \<Rightarrow> error + real list" where
  "reflection_tap is_cross cross_delay i tap buf =
     (case tap of (delay_ms, ref_gain) \<Rightarrow>
        (case tap_index is_cross cross_delay (delay_ms, ref_gain) of
           Inl e \<Rightarrow> Inl e
         | Inr total_delay \<Rightarrow>
             if total_delay < IR_SAMPLES
             then (let polarity = (if i mod 2 = 0 then 1 else - 1)
                   in case py_getitem buf total_delay of
                        Inl e \<Rightarrow> Inl e
                      | Inr old \<Rightarrow> py_setitem buf total_delay (old + ref_gain * polarity))
             else Inr buf))"

text \<open>Line 128: \<^verbatim>\<open>for i, (delay_ms, ref_gain) in enumerate(reflections)\<close>.\<close>

fun reflections_loop ::
  "bool \<Rightarrow> real \<Rightarrow> nat \<Rightarrow> (real \<times> real) list \<Rightarrow> real list \<Rightarrow> error + real list" where
  "reflections_loop is_cross cross_delay i [] buf = Inr buf"
| "reflections_loop is_cross cross_delay i (tap # taps) buf =
     (case reflection_tap is_cross cross_delay i tap buf of
        Inl e \<Rightarrow> Inl e
      | Inr buf' \<Rightarrow> reflections_loop is_cross cross_delay (Suc i) taps buf')"

text \<open>
  Line 135, \<^verbatim>\<open>if is_cross and cross_lpf_freq\<close>: \<^verbatim>\<open>None\<close> and a zero are false, every
  other number is true.
\<close>

definition truthy :: "real option \<Rightarrow> bool" where
  "truthy f = (case f of None \<Rightarrow> False | Some v \<Rightarrow> v \<noteq> 0)"

text \<open>Lines 120--132: the zero-filled buffer with the main impulse and the taps placed.\<close>

definition place_impulses ::
  "real \<Rightarrow> (real \<times> real) list \<Rightarrow> bool \<Rightarrow> real \<Rightarrow> error + real list" where
  "place_impulses gain taps is_cross cross_delay =
     (case main_impulse gain is_cross cross_delay (replicate (nat IR_SAMPLES) 0) of
        Inl e \<Rightarrow> Inl e
      | Inr buf \<Rightarrow> reflections_loop is_cross cross_delay 0 taps buf)"

definition generate_channel ::
  "real \<Rightarrow> (real \<times> real) list \<Rightarrow> bool \<Rightarrow> real \<Rightarrow> real option \<Rightarrow> error + real list" where
  "generate_channel gain taps is_cross cross_delay lpf_freq =
     (case place_impulses gain taps is_cross cross_delay of
        Inl e \<Rightarrow> Inl e
      | Inr buf \<Rightarrow>
          if is_cross \<and> truthy lpf_freq
          then (case lpf_freq of
                  Some f \<Rightarrow> apply_lpf_to_impulse buf f (real_of_int SAMPLE_RATE)
                | None \<Rightarrow> Inr buf)
          else Inr buf)"

text \<open>
  For the statements below: a converted index \<open>d\<close> is written at position \<open>k\<close> of the
  buffer when it passes the check \<open>d < IR_SAMPLES\<close> and \<open>k\<close> is \<open>d\<close> itself or, for a negative
  \<open>d\<close>, \<open>d + IR_SAMPLES\<close>.
\<close>

definition lands :: "error + int \<Rightarrow> nat \<Rightarrow> bool" where
  "lands r k =
     (case r of
        Inl e \<Rightarrow> False
      | Inr d \<Rightarrow> d < IR_SAMPLES \<and> int k = (if d < 0 then d + IR_SAMPLES else d))"

subsection \<open>\<open>struct.pack\<close> and the file system\<close>

type_synonym byte = "8 word"

text \<open>A bytes literal such as \<^verbatim>\<open>b"RIFF"\<close>.\<close>

definition ascii :: "string \<Rightarrow> byte list" where
  "ascii s = map of_char s"

fun le_bytes :: "nat \<Rightarrow> int \<Rightarrow> byte list" where
  "le_bytes 0 v = []"
| "le_bytes (Suc n) v = word_of_int (v mod 256) # le_bytes n (v div 256)"

text \<open>
  \<^verbatim>\<open>struct.pack("<I", v)\<close> and \<^verbatim>\<open>struct.pack("<H", v)\<close>: little-endian, unsigned, 4 and 2
  bytes; a value outside the range raises \<^verbatim>\<open>struct.error\<close>.
\<close>

definition pack_I :: "int \<Rightarrow> error + byte list" where
  "pack_I v = (if 0 \<le> v \<and> v < 2 ^ 32 then Inr (le_bytes 4 v) else Inl StructError)"

definition pack_H :: "int \<Rightarrow> error + byte list" where
  "pack_H v = (if 0 \<le> v \<and> v < 2 ^ 16 then Inr (le_bytes 2 v) else Inl StructError)"

text \<open>
  \<^verbatim>\<open>struct.pack("<f", x)\<close>, the conversion of a sample to the four bytes of an IEEE-754
  single, is the library's: the writer takes it as the parameter \<open>pack_f\<close>, which may
  raise (\<^verbatim>\<open>OverflowError\<close> on a value too large for a single).

  The file system is a map from paths to contents. \<^verbatim>\<open>open(filepath, "wb")\<close> creates the
  file or empties it, each \<^verbatim>\<open>f.write\<close> appends, and an exception leaves what was written
  so far. Failures of the operating system are outside the model.
\<close>

type_synonym filesystem = "string \<rightharpoonup> byte list"

text \<open>
  The writes of one \<^verbatim>\<open>with\<close> block, in order: each is the bytes to append, or the
  exception that computing them raises, which ends the block.
\<close>

fun write_chunks :: "(error + byte list) list \<Rightarrow> byte list \<Rightarrow> byte list \<times> (error + unit)" where
  "write_chunks [] written = (written, Inr ())"
| "write_chunks (Inl e # chunks) written = (written, Inl e)"
| "write_chunks (Inr bs # chunks) written = write_chunks chunks (written @ bs)"

subsection \<open>\<open>write_wav\<close> (lines 141--174)\<close>

text \<open>Line 174: \<^verbatim>\<open>struct.pack("<f", channels[ch][i])\<close>.\<close>

definition sample_chunk ::
  "('s \<Rightarrow> error + byte list) \<Rightarrow> 's list list \<Rightarrow> nat \<Rightarrow> nat \<Rightarrow> error + byte list" where
  "sample_chunk pack_f channels i ch =
     (case py_getitem channels (int ch) of
        Inl e \<Rightarrow> Inl e
      | Inr c \<Rightarrow> (case py_getitem c (int i) of Inl e \<Rightarrow> Inl e | Inr x \<Rightarrow> pack_f x))"

definition write_wav ::
  "('s \<Rightarrow> error + byte list) \<Rightarrow> string \<Rightarrow> 's list list \<Rightarrow> int \<Rightarrow> filesystem
     \<Rightarrow> filesystem \<times> (error + unit)" where
  "write_wav pack_f filepath channels sample_rate fs =
     (let num_channels = int (length channels) in
      case py_getitem channels 0 of
        Inl e \<Rightarrow> (fs, Inl e)
      | Inr c0 \<Rightarrow>
          let num_samples = int (length c0);
              bits_per_sample = 32;
              byte_rate = sample_rate * num_channels * (bits_per_sample div 8);
              block_align = num_channels * (bits_per_sample div 8);
              data_size = num_samples * block_align;
              chunks =
                [Inr (ascii ''RIFF''), pack_I (36 + data_size), Inr (ascii ''WAVE''),
                 Inr (ascii ''fmt ''), pack_I 16, pack_H 3, pack_H num_channels,
                 pack_I sample_rate, pack_I byte_rate, pack_H block_align,
                 pack_H bits_per_sample,
                 Inr (ascii ''data''), pack_I data_size]
                @ concat (map (\<lambda>i. map (\<lambda>ch. sample_chunk pack_f channels i ch)
                                     [0..<nat num_channels])
                              [0..<nat num_samples]);
              (written, r) = write_chunks chunks []
          in (fs(filepath \<mapsto> written), r))"

subsection \<open>\<open>generate_ir\<close> (lines 177--213)\<close>

text \<open>\<^verbatim>\<open>sep.join(xs)\<close>.\<close>

fun join :: "string \<Rightarrow> string list \<Rightarrow> string" where
  "join sep [] = []"
| "join sep [x] = x"
| "join sep (x # y # ys) = x @ sep @ join sep (y # ys)"

text \<open>Lines 184--203: the four channels; \<^verbatim>\<open>list(ch_ll)\<close> is a copy of the values.\<close>

definition ir_channels :: "preset \<Rightarrow> error + real list list" where
  "ir_channels p =
     (case generate_channel (direct_gain p) (reflections p) False 0 None of
        Inl e \<Rightarrow> Inl e
      | Inr ch_ll \<Rightarrow>
          let ch_rr = ch_ll in
          (case generate_channel (cross_gain p) (cross_reflections p) True
                  (cross_delay_ms p) (Some (cross_lpf_freq p)) of
             Inl e \<Rightarrow> Inl e
           | Inr ch_lr \<Rightarrow>
               let ch_rl = ch_lr in
               Inr [ch_ll, ch_rr, ch_lr, ch_rl]))"

text \<open>
  The lines after \<open>write_wav\<close> read the size of the file and print a summary; they change
  neither the file nor the result and are left out.
\<close>

definition generate_ir ::
  "(real \<Rightarrow> error + byte list) \<Rightarrow> string \<Rightarrow> string \<Rightarrow> filesystem
     \<Rightarrow> filesystem \<times> (error + unit)" where
  "generate_ir pack_f preset_name output_path fs =
     (case map_of PRESETS preset_name of
        None \<Rightarrow>
          (fs, Inl (ValueError (''Unknown preset: '' @ preset_name @ ''. Choose from: ''
                                @ join '', '' (map fst PRESETS))))
      | Some p \<Rightarrow>
          (case ir_channels p of
             Inl e \<Rightarrow> (fs, Inl e)
           | Inr channels \<Rightarrow> write_wav pack_f output_path channels SAMPLE_RATE fs))"

subsection \<open>The filter as the specification words it\<close>

text \<open>
  \<open>\<alpha> = dt / (rc + dt)\<close> with \<open>rc = 1 / (2 \<pi> f\<^sub>c)\<close> and \<open>dt = 1 / f\<^sub>s\<close>; the state is 0 at the
  start and becomes \<open>state + \<alpha> * (x[n] - state)\<close> at sample \<open>n\<close>, which is then stored
  as \<open>x[n]\<close>. \<open>lpf_state \<alpha> x n\<close> is the state after the first \<open>n\<close> samples.
\<close>

definition lpf_alpha :: "real \<Rightarrow> real \<Rightarrow> real" where
  "lpf_alpha f_c f_s = (1 / f_s) / (1 / (2 * pi * f_c) + 1 / f_s)"

primrec lpf_state :: "real \<Rightarrow> real list \<Rightarrow> nat \<Rightarrow> real" where
  "lpf_state \<alpha> x 0 = 0"
| "lpf_state \<alpha> x (Suc n) = lpf_state \<alpha> x n + \<alpha> * (x ! n - lpf_state \<alpha> x n)"

subsection \<open>The filter loop as a scan\<close>

text \<open>
  What \<open>lpf_loop\<close> leaves in the positions it has not yet visited, given the state
  \<open>prev\<close>: the list the proofs below compare the loop with.
\<close>

fun lpf_scan :: "real \<Rightarrow> real \<Rightarrow> real list \<Rightarrow> real list" where
  "lpf_scan alpha prev [] = []"
| "lpf_scan alpha prev (x # xs) =
     (prev + alpha * (x - prev)) # lpf_scan alpha (prev + alpha * (x - prev)) xs"

section \<open>Properties of the low-pass filter\<close>

lemma lpf_loop_scan:
  "i \<le> length samples \<Longrightarrow>
   lpf_loop alpha samples i prev = take i samples @ lpf_scan alpha prev (drop i samples)"
proof (induction alpha samples i prev rule: lpf_loop.induct)
  case (1 alpha samples i prev)
  show ?case
  proof (cases "i < length samples")
    case True
    let ?p = "prev + alpha * (samples ! i - prev)"
    have d: "drop i samples = samples ! i # drop (Suc i) samples"
      using True by (simp add: Cons_nth_drop_Suc)
    have "lpf_loop alpha samples i prev = lpf_loop alpha (samples[i := ?p]) (Suc i) ?p"
      using True by (subst lpf_loop.simps) (simp add: Let_def)
    also have "\<dots> = take (Suc i) (samples[i := ?p])
                     @ lpf_scan alpha ?p (drop (Suc i) (samples[i := ?p]))"
      using True by (intro "1.IH") simp_all
    also have "\<dots> = take i samples @ ?p # lpf_scan alpha ?p (drop (Suc i) samples)"
      using True by (simp add: take_Suc_conv_app_nth)
    finally show ?thesis by (simp add: d)
  next
    case False
    with "1.prems" have "i = length samples" by simp
    then show ?thesis by (subst lpf_loop.simps) simp
  qed
qed

lemma lpf_loop_0: "lpf_loop alpha samples 0 0 = lpf_scan alpha 0 samples"
  by (simp add: lpf_loop_scan)

lemma length_lpf_scan [simp]: "length (lpf_scan alpha prev xs) = length xs"
  by (induction xs arbitrary: prev) simp_all

lemma lpf_scan_state:
  "i \<le> length x \<Longrightarrow> n < length x - i \<Longrightarrow>
   lpf_scan \<alpha> (lpf_state \<alpha> x i) (drop i x) ! n = lpf_state \<alpha> x (Suc (i + n))"
proof (induction n arbitrary: i)
  case 0
  then have "drop i x = x ! i # drop (Suc i) x" by (simp add: Cons_nth_drop_Suc)
  then show ?case by simp
next
  case (Suc n)
  then have d: "drop i x = x ! i # drop (Suc i) x" by (simp add: Cons_nth_drop_Suc)
  have "lpf_scan \<alpha> (lpf_state \<alpha> x (Suc i)) (drop (Suc i) x) ! n
          = lpf_state \<alpha> x (Suc (Suc i + n))"
    using Suc.prems by (intro Suc.IH) simp_all
  then show ?case by (simp add: d)
qed

lemma lpf_scan_nth: "n < length x \<Longrightarrow> lpf_scan \<alpha> 0 x ! n = lpf_state \<alpha> x (Suc n)"
  using lpf_scan_state [of 0 x n \<alpha>] by simp

lemma lpf_scan_map: "lpf_scan \<alpha> 0 x = map (\<lambda>n. lpf_state \<alpha> x (Suc n)) [0..<length x]"
  by (rule nth_equalityI) (simp_all add: lpf_scan_nth)

lemma apply_lpf_pos:
  assumes "0 < f_c" "0 < f_s"
  shows "apply_lpf_to_impulse x f_c f_s = Inr (lpf_scan (lpf_alpha f_c f_s) 0 x)"
proof -
  have "0 < 1 / (2 * pi * f_c)" "0 < 1 / f_s" using assms by simp_all
  then have "1 / (2 * pi * f_c) + 1 / f_s \<noteq> 0" by linarith
  then show ?thesis
    using assms by (simp add: apply_lpf_to_impulse_def lpf_alpha_def lpf_loop_0 Let_def)
qed

text \<open>
  Claim C6. With a cutoff \<open>f\<^sub>c > 0\<close> and a sample rate \<open>f\<^sub>s > 0\<close> the filter raises
  nothing and makes one pass over the whole buffer in increasing index order: sample \<open>n\<close>
  of the result is the state of the specification's recurrence after the samples
  \<open>0, \<dots>, n\<close>, the state starting at 0 and \<open>\<alpha>\<close> being \<open>dt / (rc + dt)\<close>.
\<close>

theorem lpf_recurrence:
  assumes "0 < f_c" and "0 < f_s"
  shows "apply_lpf_to_impulse x f_c f_s =
           Inr (map (\<lambda>n. lpf_state (lpf_alpha f_c f_s) x (Suc n)) [0..<length x])"
  using assms by (simp add: apply_lpf_pos lpf_scan_map)

theorem lpf_recurrence_witness:
  "(0::real) < 3000 \<and> (0::real) < 48000 \<and>
   apply_lpf_to_impulse [1, 2] 3000 48000 =
     Inr [lpf_alpha 3000 48000,
          lpf_alpha 3000 48000 + lpf_alpha 3000 48000 * (2 - lpf_alpha 3000 48000)]"
  using lpf_recurrence [of 3000 48000 "[1, 2]"] by (simp add: upt_rec)

section \<open>Properties of the rounding\<close>

lemma pow2_powr: "pow2 e = 2 powr real_of_int e"
  by (simp add: pow2_def powr_real_of_int inverse_eq_divide)

lemma pow2_pos [simp]: "0 < pow2 e"
  by (simp add: pow2_powr)

lemma pow2_nonzero [simp]: "pow2 e \<noteq> 0"
  using pow2_pos [of e] by linarith

lemma abs_pow2 [simp]: "\<bar>pow2 e\<bar> = pow2 e"
  using pow2_pos [of e] by linarith

lemma pow2_add: "pow2 (a + b) = pow2 a * pow2 b"
  by (simp add: pow2_powr powr_add)

lemma pow2_nat: "0 \<le> e \<Longrightarrow> pow2 e = 2 ^ nat e"
  by (simp add: pow2_def)

lemma pow2_mono: "a \<le> b \<Longrightarrow> pow2 a \<le> pow2 b"
  by (simp add: pow2_powr)

lemma round_half_even_of_int [simp]: "round_half_even (real_of_int n) = n"
  by (simp add: round_half_even_def)

lemma round_half_even_nonneg: "0 \<le> r \<Longrightarrow> 0 \<le> round_half_even r"
  by (auto simp: round_half_even_def Let_def)

lemma round_half_even_upper: "real_of_int (round_half_even r) \<le> r + 1 / 2"
  unfolding round_half_even_def Let_def by (auto; linarith)

lemma round_half_even_small: "0 \<le> r \<Longrightarrow> r < 1 / 2 \<Longrightarrow> round_half_even r = 0"
  unfolding round_half_even_def Let_def by (auto; linarith)

lemma round_half_even_double:
  assumes "0 \<le> r"
  shows "real_of_int (round_half_even r) \<le> 2 * r"
proof (cases "r < 1 / 2")
  case True
  then show ?thesis using assms by (simp add: round_half_even_small)
next
  case False
  then show ?thesis using round_half_even_upper [of r] by linarith
qed

lemma floor_log2_eq:
  assumes "pow2 e \<le> \<bar>x\<bar>" "\<bar>x\<bar> < pow2 (e + 1)"
  shows "\<lfloor>log 2 \<bar>x\<bar>\<rfloor> = e"
proof -
  have "0 < \<bar>x\<bar>" using assms(1) pow2_pos [of e] by linarith
  then show ?thesis
    using assms by (subst floor_log_eq_powr_iff) (simp_all add: pow2_powr)
qed

text \<open>Evaluating \<open>fl\<close> at a number whose binary exponent \<open>e\<close> is given.\<close>

lemma fl_eval:
  assumes "pow2 e \<le> \<bar>x\<bar>" "\<bar>x\<bar> < pow2 (e + 1)"
  shows "fl x = (let u = max (e - 52) (- 1074);
                     y = real_of_int (round_half_even (x / pow2 u)) * pow2 u
                 in if \<bar>y\<bar> < 2 ^ 1024 then Some y else None)"
proof -
  have "0 < \<bar>x\<bar>" using assms(1) pow2_pos [of e] by linarith
  then have "x \<noteq> 0" by simp
  then show ?thesis by (simp add: fl_def floor_log2_eq [OF assms])
qed

lemma fl_zero [simp]: "fl 0 = Some 0"
  by (simp add: fl_def)

text \<open>A double is its own rounding.\<close>

lemma fl_exact:
  assumes "x = real_of_int m * pow2 e" "\<bar>m\<bar> < 2 ^ 53" "- 1074 \<le> e" "e \<le> 971"
  shows "fl x = Some x"
proof (cases "m = 0")
  case True
  then show ?thesis using assms(1) by simp
next
  case False
  have ax: "\<bar>x\<bar> = \<bar>real_of_int m\<bar> * pow2 e" by (simp add: assms(1) abs_mult)
  have x0: "x \<noteq> 0" using False by (simp add: assms(1))
  define E where "E = \<lfloor>log 2 \<bar>x\<bar>\<rfloor>"
  have "real_of_int \<bar>m\<bar> < real_of_int (2 ^ 53)" using assms(2) by (simp only: of_int_less_iff)
  then have "\<bar>real_of_int m\<bar> < 2 ^ 53" by simp
  then have lt: "\<bar>x\<bar> < 2 ^ 53 * pow2 e" unfolding ax by (intro mult_strict_right_mono) simp_all
  also have "\<dots> = pow2 (e + 53)" using pow2_add [of e 53] by (simp add: pow2_nat)
  finally have "log 2 \<bar>x\<bar> < real_of_int (e + 53)"
    using x0 by (simp add: pow2_powr log_less_iff)
  then have E_hi: "E < e + 53" unfolding E_def by linarith
  define u where "u = max (E - 52) (- 1074)"
  have ue: "u \<le> e" using E_hi assms(3) by (simp add: u_def)
  have "pow2 e = pow2 (e - u) * pow2 u" using pow2_add [of "e - u" u] by simp
  then have "x / pow2 u = real_of_int m * pow2 (e - u)" by (simp add: assms(1))
  also have "\<dots> = real_of_int (m * 2 ^ nat (e - u))" using ue by (simp add: pow2_nat)
  finally have "real_of_int (round_half_even (x / pow2 u)) * pow2 u = x / pow2 u * pow2 u"
    by (simp only: round_half_even_of_int)
  then have y: "real_of_int (round_half_even (x / pow2 u)) * pow2 u = x" by simp
  note lt
  also have "2 ^ 53 * pow2 e \<le> 2 ^ 53 * pow2 971"
    using assms(4) by (intro mult_left_mono pow2_mono) simp_all
  also have "\<dots> = 2 ^ 1024" by (simp add: pow2_def flip: power_add)
  finally have "\<bar>x\<bar> < 2 ^ 1024" .
  then show ?thesis using x0 y by (simp add: fl_def Let_def flip: E_def u_def)
qed

lemma fl_of_int: "\<bar>n\<bar> < 2 ^ 53 \<Longrightarrow> fl (real_of_int n) = Some (real_of_int n)"
  using fl_exact [of "real_of_int n" n 0] by (simp add: pow2_def)

text \<open>A number that is not negative and not huge rounds to one that is not negative.\<close>

lemma fl_bounded:
  assumes "0 \<le> x" "x < 2 ^ 1023"
  shows "\<exists>y. fl x = Some y \<and> 0 \<le> y \<and> y \<le> 2 * x"
proof (cases "x = 0")
  case True
  then show ?thesis by simp
next
  case False
  define u where "u = max (\<lfloor>log 2 \<bar>x\<bar>\<rfloor> - 52) (- 1074)"
  define y where "y = real_of_int (round_half_even (x / pow2 u)) * pow2 u"
  have r0: "0 \<le> x / pow2 u" using assms(1) pow2_pos [of u] by (intro divide_nonneg_pos)
  have "0 \<le> real_of_int (round_half_even (x / pow2 u))"
    using round_half_even_nonneg [OF r0] by (simp only: of_int_0_le_iff)
  then have y0: "0 \<le> y"
    unfolding y_def using pow2_pos [of u] by (intro mult_nonneg_nonneg) (simp_all only: less_imp_le)
  have "real_of_int (round_half_even (x / pow2 u)) * pow2 u \<le> (2 * (x / pow2 u)) * pow2 u"
    using round_half_even_double [OF r0] pow2_pos [of u]
    by (intro mult_right_mono) (simp_all only: less_imp_le)
  moreover have "(2 * (x / pow2 u)) * pow2 u = 2 * x" using pow2_nonzero [of u] by simp
  ultimately have y2: "y \<le> 2 * x" by (simp only: y_def)
  then have "\<bar>y\<bar> < 2 ^ 1024" using y0 assms(2) by simp
  then have "fl x = Some y" using False by (simp add: fl_def Let_def flip: u_def y_def)
  then show ?thesis using y0 y2 by blast
qed

section \<open>Properties of the synthesizer\<close>

subsection \<open>Indices and Python indexing\<close>

lemma IR_SAMPLES_eq: "IR_SAMPLES = 3840"
  by (simp add: IR_SAMPLES_def SAMPLE_RATE_def IR_DURATION_MS_def py_int_def)

lemma py_int_nonneg: "0 \<le> x \<Longrightarrow> 0 \<le> py_int x"
  by (simp add: py_int_def)

lemma py_int_of_int [simp]: "py_int (real_of_int n) = n"
  by (simp add: py_int_def)

lemma ms_to_samples_zero [simp]: "ms_to_samples 0 = Inr 0"
  by (simp add: ms_to_samples_def py_int_def)

text \<open>A whole number of milliseconds converts exactly.\<close>

lemma ms_to_samples_of_int:
  assumes "\<bar>n\<bar> < 2 ^ 30"
  shows "ms_to_samples (real_of_int n) = Inr (48 * n)"
proof -
  have "\<bar>n * 48000\<bar> < 2 ^ 53" "\<bar>48 * n\<bar> < 2 ^ 53" using assms by (simp_all add: abs_mult)
  then have "fl (real_of_int (n * 48000)) = Some (real_of_int (n * 48000))"
    "fl (real_of_int (48 * n)) = Some (real_of_int (48 * n))"
    by (simp_all only: fl_of_int)
  moreover have "py_int (48 * real_of_int n) = 48 * n"
    using py_int_of_int [of "48 * n"] by simp
  ultimately show ?thesis by (simp add: ms_to_samples_def SAMPLE_RATE_def)
qed

text \<open>A delay that is not negative and not huge converts, to an index that is not negative.\<close>

lemma ms_to_samples_ok:
  assumes "0 \<le> ms" "ms \<le> 2 ^ 1000"
  shows "\<exists>d. ms_to_samples ms = Inr d \<and> 0 \<le> d"
proof -
  have "ms * 48000 \<le> 2 ^ 1000 * 48000" using assms(2) by simp
  also have "\<dots> < (2::real) ^ 1023" by simp
  finally have "ms * 48000 < 2 ^ 1023" .
  moreover have "0 \<le> ms * 48000" using assms(1) by simp
  ultimately obtain p where p: "fl (ms * 48000) = Some p" "0 \<le> p" "p \<le> 2 * (ms * 48000)"
    using fl_bounded [of "ms * 48000"] by blast
  have "p / 1000 \<le> 2 * (ms * 48000) / 1000" using p(3) by (simp add: divide_right_mono)
  also have "\<dots> \<le> 2 * (2 ^ 1000 * 48000) / 1000" using assms(2) by simp
  also have "\<dots> < (2::real) ^ 1023" by simp
  finally have "p / 1000 < 2 ^ 1023" .
  moreover have "0 \<le> p / 1000" using p(2) by simp
  ultimately obtain q where q: "fl (p / 1000) = Some q" "0 \<le> q"
    using fl_bounded [of "p / 1000"] by blast
  show ?thesis using p(1) q by (simp add: ms_to_samples_def SAMPLE_RATE_def py_int_nonneg)
qed

lemma tap_index_ok:
  assumes "0 \<le> fst t" "fst t \<le> 10 ^ 300" "is_cross \<Longrightarrow> 0 \<le> cd \<and> cd \<le> 10 ^ 300"
  shows "\<exists>d. tap_index is_cross cd t = Inr d \<and> 0 \<le> d"
proof -
  let ?s = "fst t + (if is_cross then cd else 0)"
  have s: "0 \<le> ?s" "?s \<le> 2 * 10 ^ 300" using assms by auto
  have "2 * 10 ^ 300 < (2::real) ^ 1023" by simp
  with s(2) have "?s < 2 ^ 1023" by (rule le_less_trans)
  with s(1) obtain y where y: "fl ?s = Some y" "0 \<le> y" "y \<le> 2 * ?s"
    using fl_bounded [of ?s] by blast
  have "2 * ?s \<le> 2 * (2 * 10 ^ 300)" using s(2) by (intro mult_left_mono) simp_all
  also have "\<dots> \<le> (2::real) ^ 1000" by simp
  finally have "y \<le> 2 ^ 1000" using y(3) by (rule order_trans [rotated])
  then obtain d where "ms_to_samples y = Inr d" "0 \<le> d"
    using ms_to_samples_ok [OF y(2)] by blast
  then show ?thesis using y(1) by (simp add: tap_index_def)
qed

lemma main_index_ok:
  assumes "is_cross \<Longrightarrow> 0 \<le> cd \<and> cd \<le> 10 ^ 300"
  shows "\<exists>d. main_index is_cross cd = Inr d \<and> 0 \<le> d"
proof (cases is_cross)
  case True
  have "(10::real) ^ 300 \<le> 2 ^ 1000" by simp
  moreover have "0 \<le> cd" "cd \<le> 10 ^ 300" using assms True by simp_all
  ultimately have "0 \<le> cd" "cd \<le> 2 ^ 1000" by (simp_all only: order_trans [of cd "10 ^ 300"])
  then show ?thesis using True ms_to_samples_ok [of cd] by (simp add: main_index_def)
next
  case False
  then show ?thesis by (simp add: main_index_def)
qed

lemma py_setitem_in: "0 \<le> i \<Longrightarrow> i < int (length xs) \<Longrightarrow> py_setitem xs i v = Inr (xs[nat i := v])"
  by (simp add: py_setitem_def py_index_def)

lemma py_setitem_wrap:
  "- int (length xs) \<le> i \<Longrightarrow> i < 0 \<Longrightarrow> py_setitem xs i v = Inr (xs[nat (int (length xs) + i) := v])"
  by (simp add: py_setitem_def py_index_def)

lemma py_setitem_below: "i < - int (length xs) \<Longrightarrow> py_setitem xs i v = Inl IndexError"
  by (simp add: py_setitem_def py_index_def)

lemma py_getitem_in: "0 \<le> i \<Longrightarrow> i < int (length xs) \<Longrightarrow> py_getitem xs i = Inr (xs ! nat i)"
  by (simp add: py_getitem_def py_index_def)

lemma py_getitem_wrap:
  "- int (length xs) \<le> i \<Longrightarrow> i < 0 \<Longrightarrow> py_getitem xs i = Inr (xs ! nat (int (length xs) + i))"
  by (simp add: py_getitem_def py_index_def)

text \<open>Which position an index that raises nothing addresses.\<close>

lemma lands_in: "0 \<le> d \<Longrightarrow> d < IR_SAMPLES \<Longrightarrow> lands (Inr d) k \<longleftrightarrow> k = nat d"
  by (auto simp: lands_def IR_SAMPLES_eq)

lemma lands_wrap:
  "- IR_SAMPLES \<le> d \<Longrightarrow> d < 0 \<Longrightarrow> lands (Inr d) k \<longleftrightarrow> k = nat (IR_SAMPLES + d)"
  by (auto simp: lands_def IR_SAMPLES_eq)

lemma lands_dropped: "IR_SAMPLES \<le> d \<Longrightarrow> \<not> lands (Inr d) k"
  by (simp add: lands_def)


subsection \<open>The main impulse\<close>

lemma main_impulse_dropped:
  "main_index is_cross cd = Inr d \<Longrightarrow> IR_SAMPLES \<le> d \<Longrightarrow> main_impulse g is_cross cd buf = Inr buf"
  by (simp add: main_impulse_def)

lemma main_impulse_in:
  assumes "length buf = nat IR_SAMPLES" "main_index is_cross cd = Inr d" "0 \<le> d" "d < IR_SAMPLES"
  shows "main_impulse g is_cross cd buf = Inr (buf[nat d := g])"
proof -
  have "d < int (length buf)" using assms by (simp add: IR_SAMPLES_eq)
  then show ?thesis using assms(2-4) by (simp add: main_impulse_def py_setitem_in)
qed

lemma main_impulse_wrap:
  assumes "length buf = nat IR_SAMPLES" "main_index is_cross cd = Inr d" "- IR_SAMPLES \<le> d" "d < 0"
  shows "main_impulse g is_cross cd buf = Inr (buf[nat (IR_SAMPLES + d) := g])"
proof -
  have l: "int (length buf) = IR_SAMPLES" using assms(1) by (simp add: IR_SAMPLES_eq)
  have "d < IR_SAMPLES" using assms(4) by (simp add: IR_SAMPLES_eq)
  then show ?thesis
    using assms(2-4) py_setitem_wrap [of buf d g] by (simp add: main_impulse_def l)
qed

lemma main_impulse_lands:
  assumes "length buf = nat IR_SAMPLES" "main_index is_cross cd = Inr d" "- IR_SAMPLES \<le> d"
  shows "\<exists>b. main_impulse g is_cross cd buf = Inr b \<and> length b = length buf \<and>
           (\<forall>k<length buf. b ! k = (if lands (Inr d) k then g else buf ! k))"
proof -
  consider "IR_SAMPLES \<le> d" | "0 \<le> d" "d < IR_SAMPLES" | "d < 0" by linarith
  then show ?thesis
  proof cases
    case 1
    then show ?thesis using assms(2) by (simp add: main_impulse_dropped lands_dropped)
  next
    case 2
    then show ?thesis
      using assms by (auto simp: main_impulse_in lands_in nth_list_update)
  next
    case 3
    then show ?thesis
      using assms by (auto simp: main_impulse_wrap lands_wrap nth_list_update)
  qed
qed

subsection \<open>One reflection tap and the loop over the taps\<close>

lemma reflection_tap_dropped:
  "tap_index is_cross cd tap = Inr d \<Longrightarrow> IR_SAMPLES \<le> d \<Longrightarrow>
   reflection_tap is_cross cd i tap buf = Inr buf"
  by (cases tap) (simp add: reflection_tap_def)

lemma reflection_tap_in:
  assumes "length buf = nat IR_SAMPLES" "tap_index is_cross cd tap = Inr d" "0 \<le> d" "d < IR_SAMPLES"
  shows "reflection_tap is_cross cd i tap buf =
     Inr (buf[nat d := buf ! nat d + snd tap * (if even i then 1 else - 1)])"
proof -
  have "d < int (length buf)" using assms by simp
  then show ?thesis
    using assms(2-4)
    by (cases tap) (simp add: reflection_tap_def Let_def py_getitem_in py_setitem_in even_iff_mod_2_eq_zero)
qed

lemma reflection_tap_wrap:
  assumes "length buf = nat IR_SAMPLES" "tap_index is_cross cd tap = Inr d" "- IR_SAMPLES \<le> d" "d < 0"
  shows "reflection_tap is_cross cd i tap buf =
     Inr (buf[nat (IR_SAMPLES + d) := buf ! nat (IR_SAMPLES + d) + snd tap * (if even i then 1 else - 1)])"
proof -
  have l: "int (length buf) = IR_SAMPLES" using assms(1) by (simp add: IR_SAMPLES_eq)
  have "d < IR_SAMPLES" using assms(4) by (simp add: IR_SAMPLES_eq)
  then show ?thesis
    using assms(2-4) py_getitem_wrap [of buf d] py_setitem_wrap [of buf d]
    by (cases tap) (simp add: reflection_tap_def Let_def l even_iff_mod_2_eq_zero)
qed

lemma reflection_tap_lands:
  assumes "length buf = nat IR_SAMPLES" "tap_index is_cross cd tap = Inr d" "- IR_SAMPLES \<le> d"
  shows "\<exists>b. reflection_tap is_cross cd i tap buf = Inr b \<and> length b = length buf \<and>
           (\<forall>k<length buf. b ! k = buf ! k +
              (if lands (Inr d) k then snd tap * (if even i then 1 else - 1) else 0))"
proof -
  consider "IR_SAMPLES \<le> d" | "0 \<le> d" "d < IR_SAMPLES" | "d < 0" by linarith
  then show ?thesis
  proof cases
    case 1
    then show ?thesis using assms(2) by (simp add: reflection_tap_dropped lands_dropped)
  next
    case 2
    then show ?thesis
      using assms by (auto simp: reflection_tap_in lands_in nth_list_update)
  next
    case 3
    then show ?thesis
      using assms by (auto simp: reflection_tap_wrap lands_wrap nth_list_update)
  qed
qed


lemma reflections_loop_sum:
  assumes "length buf = nat IR_SAMPLES"
    and "\<forall>t\<in>set taps. \<exists>d. tap_index is_cross cd t = Inr d \<and> - IR_SAMPLES \<le> d"
  shows "\<exists>b. reflections_loop is_cross cd i0 taps buf = Inr b \<and> length b = length buf \<and>
           (\<forall>k<length buf. b ! k = buf ! k +
              (\<Sum>j<length taps. if lands (tap_index is_cross cd (taps ! j)) k
                                 then snd (taps ! j) * (if even (i0 + j) then 1 else - 1) else 0))"
  using assms
proof (induction taps arbitrary: buf i0)
  case Nil
  then show ?case by simp
next
  case (Cons t taps)
  from Cons.prems(2) obtain d where d: "tap_index is_cross cd t = Inr d" "- IR_SAMPLES \<le> d"
    by auto
  from reflection_tap_lands [OF Cons.prems(1) d, of i0]
  obtain b1 where b1: "reflection_tap is_cross cd i0 t buf = Inr b1" "length b1 = length buf"
    and b1k: "\<forall>k<length buf. b1 ! k = buf ! k +
                (if lands (tap_index is_cross cd t) k then snd t * (if even i0 then 1 else - 1) else 0)"
    unfolding d(1) by blast
  from Cons.IH [of b1 "Suc i0"] Cons.prems b1(2)
  obtain b where b: "reflections_loop is_cross cd (Suc i0) taps b1 = Inr b" "length b = length b1"
    and bk: "\<forall>k<length b1. b ! k = b1 ! k +
              (\<Sum>j<length taps. if lands (tap_index is_cross cd (taps ! j)) k
                                 then snd (taps ! j) * (if even (Suc i0 + j) then 1 else - 1) else 0)"
    by auto
  have "b ! k = buf ! k +
          (\<Sum>j<length (t # taps). if lands (tap_index is_cross cd ((t # taps) ! j)) k
                                   then snd ((t # taps) ! j) * (if even (i0 + j) then 1 else - 1)
                                   else 0)"
    if "k < length buf" for k
  proof -
    let ?F = "\<lambda>j. if lands (tap_index is_cross cd ((t # taps) ! j)) k
                then snd ((t # taps) ! j) * (if even (i0 + j) then 1 else - 1) else (0::real)"
    have e: "(\<Sum>j<length (t # taps). ?F j) = ?F 0 + (\<Sum>j<length taps. ?F (Suc j))"
      unfolding length_Cons by (rule sum.lessThan_Suc_shift)
    have f0: "?F 0 = (if lands (tap_index is_cross cd t) k
                      then snd t * (if even i0 then 1 else - 1) else 0)"
      by simp
    have fs: "(\<Sum>j<length taps. ?F (Suc j)) =
              (\<Sum>j<length taps. if lands (tap_index is_cross cd (taps ! j)) k
                                 then snd (taps ! j) * (if even (Suc i0 + j) then 1 else - 1) else 0)"
      by (intro sum.cong refl) simp
    have "b ! k = b1 ! k + (\<Sum>j<length taps. ?F (Suc j))"
      using that bk b1(2) by (simp only: fs)
    also have "b1 ! k = buf ! k + ?F 0"
      using that b1k by (simp only: f0)
    finally show ?thesis by (simp only: e add.assoc)
  qed
  then show ?case using b b1 by simp
qed

lemma place_impulses_sum:
  assumes "\<forall>t\<in>set taps. \<exists>d. tap_index is_cross cd t = Inr d \<and> - IR_SAMPLES \<le> d"
    and "\<exists>d. main_index is_cross cd = Inr d \<and> - IR_SAMPLES \<le> d"
  shows "\<exists>b. place_impulses g taps is_cross cd = Inr b \<and> length b = nat IR_SAMPLES \<and>
           (\<forall>k<nat IR_SAMPLES. b ! k =
              (if lands (main_index is_cross cd) k then g else 0) +
              (\<Sum>j<length taps. if lands (tap_index is_cross cd (taps ! j)) k
                                 then snd (taps ! j) * (if even j then 1 else - 1)
                                 else 0))"
proof -
  let ?z = "replicate (nat IR_SAMPLES) (0::real)"
  have lz: "length ?z = nat IR_SAMPLES" by simp
  from assms(2) obtain d where d: "main_index is_cross cd = Inr d" "- IR_SAMPLES \<le> d" by blast
  from main_impulse_lands [OF lz d, of g]
  obtain b1 where b1: "main_impulse g is_cross cd ?z = Inr b1" "length b1 = nat IR_SAMPLES"
    and b1k: "\<forall>k<nat IR_SAMPLES. b1 ! k = (if lands (main_index is_cross cd) k then g else 0)"
    unfolding d(1) by auto
  have "\<And>j. 0 + j = (j::nat)" by simp
  then obtain b where b: "reflections_loop is_cross cd 0 taps b1 = Inr b" "length b = length b1"
    and bk: "\<forall>k<length b1. b ! k = b1 ! k +
              (\<Sum>j<length taps. if lands (tap_index is_cross cd (taps ! j)) k
                                 then snd (taps ! j) * (if even j then 1 else - 1)
                                 else 0)"
    using reflections_loop_sum [OF b1(2) assms(1), of 0] by (simp only:) blast
  have "place_impulses g taps is_cross cd = Inr b"
    by (simp add: place_impulses_def b1(1) b(1))
  then show ?thesis using b(2) b1(2) bk b1k by simp
qed

lemma place_impulses_no_taps:
  "place_impulses g [] is_cross cd = main_impulse g is_cross cd (replicate (nat IR_SAMPLES) 0)"
  by (simp add: place_impulses_def split: sum.splits)

lemma generate_channel_unfiltered:
  "generate_channel g taps is_cross cd None = place_impulses g taps is_cross cd"
  by (simp add: generate_channel_def truthy_def split: sum.splits)

lemma apply_lpf_ok:
  assumes "f \<noteq> 0" "s \<noteq> 0" "1 / (2 * pi * f) + 1 / s \<noteq> 0"
  shows "\<exists>y. apply_lpf_to_impulse x f s = Inr y \<and> length y = length x"
  using assms by (simp add: apply_lpf_to_impulse_def Let_def lpf_loop_0)

lemma apply_lpf_Inr:
  assumes "f \<noteq> 0" "s \<noteq> 0" "1 / (2 * pi * f) + 1 / s \<noteq> 0"
  shows "apply_lpf_to_impulse x f s = Inr (lpf_scan (lpf_alpha f s) 0 x)"
  using assms by (simp add: apply_lpf_to_impulse_def Let_def lpf_loop_0 lpf_alpha_def)

lemma generate_channel_ok:
  assumes "\<exists>d. main_index is_cross cd = Inr d \<and> - IR_SAMPLES \<le> d"
    and "\<forall>t\<in>set taps. \<exists>d. tap_index is_cross cd t = Inr d \<and> - IR_SAMPLES \<le> d"
    and "\<And>v. is_cross \<Longrightarrow> lpf = Some v \<Longrightarrow> 0 \<le> v"
  shows "\<exists>b. generate_channel g taps is_cross cd lpf = Inr b \<and> length b = nat IR_SAMPLES"
proof -
  obtain b where b: "place_impulses g taps is_cross cd = Inr b" "length b = nat IR_SAMPLES"
    using place_impulses_sum [OF assms(2,1)] by blast
  show ?thesis
  proof (cases "is_cross \<and> truthy lpf")
    case True
    then obtain v where v: "lpf = Some v" "v \<noteq> 0" by (auto simp: truthy_def split: option.splits)
    with assms(3) True have "0 < v" by fastforce
    then obtain y where "apply_lpf_to_impulse b v (real_of_int SAMPLE_RATE) = Inr y"
      "length y = length b"
      using apply_lpf_pos [of v "real_of_int SAMPLE_RATE" b] by (simp add: SAMPLE_RATE_def)
    then show ?thesis using True v b by (simp add: generate_channel_def)
  next
    case False
    then show ?thesis using b by (auto simp: generate_channel_def)
  qed
qed

lemma replicate_update_0: "0 < n \<Longrightarrow> (replicate n x)[0 := v] = v # replicate (n - 1) x"
  by (cases n) simp_all

text \<open>
  The conversion at three doubles: the one nearest to 5.2, the one nearest to 1/3, whose
  product with 48000 rounds up to 16000, and one whose product is infinite.
\<close>

lemma ms_to_samples_5_2:
  "ms_to_samples (5854679515581645 / 1125899906842624) = Inr 249"
proof -
  have "fl (5854679515581645 / 1125899906842624 * 48000) = Some 249600"
    by (subst fl_eval [where e = 17]) (simp_all add: pow2_def round_half_even_def Let_def)
  moreover have "fl (249600 / 1000) = Some (8782019273372467 / 35184372088832)"
    by (subst fl_eval [where e = 7]) (simp_all add: pow2_def round_half_even_def Let_def)
  ultimately show ?thesis by (simp add: ms_to_samples_def SAMPLE_RATE_def py_int_def)
qed

lemma ms_to_samples_third:
  "ms_to_samples (6004799503160661 / 18014398509481984) = Inr 16"
proof -
  have "fl (6004799503160661 / 18014398509481984 * 48000) = Some 16000"
    by (subst fl_eval [where e = 13]) (simp_all add: pow2_def round_half_even_def Let_def)
  moreover have "fl (16000 / 1000) = Some 16"
    using fl_of_int [of 16] by simp
  ultimately show ?thesis by (simp add: ms_to_samples_def SAMPLE_RATE_def py_int_def)
qed

lemma ms_to_samples_overflow: "ms_to_samples (10 ^ 304) = Inl OverflowError"
proof -
  have "fl (10 ^ 304 * 48000) = None"
    by (subst fl_eval [where e = 1025]) (simp_all add: pow2_def round_half_even_def Let_def)
  then show ?thesis by (simp add: ms_to_samples_def SAMPLE_RATE_def)
qed

subsection \<open>The conversions used in the examples\<close>

lemma fl_5_2_product: "fl (5854679515581645 / 1125899906842624 * 48000) = Some 249600"
  by (subst fl_eval [where e = 17]) (simp_all add: pow2_def round_half_even_def Let_def)

lemma fl_5_2_quotient: "fl (249600 / 1000) = Some (8782019273372467 / 35184372088832)"
  by (subst fl_eval [where e = 7]) (simp_all add: pow2_def round_half_even_def Let_def)

lemma fl_third_product: "fl (6004799503160661 / 18014398509481984 * 48000) = Some 16000"
  by (subst fl_eval [where e = 13]) (simp_all add: pow2_def round_half_even_def Let_def)

lemma fl_third_quotient: "fl (16000 / 1000) = Some 16"
  using fl_of_int [of 16] by simp

lemma main_index_zero: "main_index is_cross 0 = Inr 0"
  by (simp add: main_index_def)

lemma place_impulse_at_0:
  "place_impulses g [] is_cross 0 = Inr ((replicate 3840 0)[0 := g])"
  using main_impulse_in [of "replicate 3840 0" is_cross 0 0 g]
  by (simp add: place_impulses_no_taps main_index_zero IR_SAMPLES_eq)


lemma main_index_100: "main_index True 100 = Inr 4800"
  using ms_to_samples_of_int [of 100] by (simp add: main_index_def)

lemma tap_index_101: "tap_index True 100 (1, x) = Inr 4848"
proof -
  have "fl 101 = Some 101" using fl_of_int [of 101] by simp
  then show ?thesis using ms_to_samples_of_int [of 101] by (simp add: tap_index_def)
qed



section \<open>The claims about the synthesizer\<close>

text \<open>
  Claim C2 says that the main impulse of a cross channel sits at the rounded index
  \<open>round (cross_delay_ms * 48000 / 1000)\<close>, so at 250 for 5.2 ms. \<open>ms_to_samples\<close>
  converts with \<^verbatim>\<open>int\<close>, which truncates: at the double nearest to 5.2 the float quotient
  is the double nearest to 249.6, the index is 249, and sample 250 stays 0.
\<close>

theorem main_impulse_round_counterexample:
  "round (5854679515581645 / 1125899906842624 * 48000 / 1000 :: real) = 250 \<and>
   ms_to_samples (5854679515581645 / 1125899906842624) = Inr 249 \<and>
   (\<exists>buf. generate_channel 1 [] True (5854679515581645 / 1125899906842624) None = Inr buf \<and>
          buf ! 249 = 1 \<and> buf ! 250 = 0)"
proof -
  let ?cd = "5854679515581645 / 1125899906842624 :: real"
  have r: "round (?cd * 48000 / 1000) = 250"
    by (simp add: round_def)
  have m: "main_index True ?cd = Inr 249"
    by (simp only: main_index_def ms_to_samples_5_2 if_True)
  have "generate_channel 1 [] True ?cd None = Inr ((replicate (nat IR_SAMPLES) 0)[nat 249 := 1])"
    unfolding generate_channel_unfiltered place_impulses_no_taps
    by (rule main_impulse_in [OF _ m]) (simp_all add: IR_SAMPLES_eq)
  moreover have "(replicate (nat IR_SAMPLES) (0::real))[nat 249 := 1] ! 249 = 1"
    "(replicate (nat IR_SAMPLES) (0::real))[nat 249 := 1] ! 250 = 0"
    by (simp_all add: IR_SAMPLES_eq)
  ultimately show ?thesis using r ms_to_samples_5_2 by blast
qed

text \<open>
  Claim C2, amended. Let \<open>p\<close> be the float product \<open>cross_delay_ms * 48000\<close> and \<open>q\<close> the
  float quotient \<open>p / 1000\<close>, each rounded to the nearest double. When \<open>0 \<le> q < 3840\<close> the
  conversion gives the truncated index \<open>\<lfloor>q\<rfloor>\<close>; the main impulse of a cross channel is
  written there and that of a direct channel at index 0; with no taps and no filter the
  channel is the zero buffer with \<open>gain\<close> at that index.
\<close>

theorem main_impulse_index:
  assumes "fl (cd * 48000) = Some p" and "fl (p / 1000) = Some q"
    and "0 \<le> q" and "q < 3840" and "length buf = nat IR_SAMPLES"
  shows "ms_to_samples cd = Inr \<lfloor>q\<rfloor> \<and>
         main_impulse g True cd buf = Inr (buf[nat \<lfloor>q\<rfloor> := g]) \<and>
         main_impulse g False cd buf = Inr (buf[0 := g]) \<and>
         generate_channel g [] True cd None =
           Inr ((replicate (nat IR_SAMPLES) 0)[nat \<lfloor>q\<rfloor> := g]) \<and>
         generate_channel g [] False cd None = Inr ((replicate (nat IR_SAMPLES) 0)[0 := g])"
proof -
  have m: "ms_to_samples cd = Inr \<lfloor>q\<rfloor>"
    using assms(1-3) by (simp add: ms_to_samples_def SAMPLE_RATE_def py_int_def)
  then have mt: "main_index True cd = Inr \<lfloor>q\<rfloor>" by (simp add: main_index_def)
  have mf: "main_index False cd = Inr 0" by (simp add: main_index_def)
  have lo: "0 \<le> \<lfloor>q\<rfloor>" using assms(3) by simp
  have hi: "\<lfloor>q\<rfloor> < IR_SAMPLES" using assms(4) by (simp add: IR_SAMPLES_eq floor_less_iff)
  have t: "main_impulse g True cd b = Inr (b[nat \<lfloor>q\<rfloor> := g])"
    if "length b = nat IR_SAMPLES" for b
    using that mt lo hi by (rule main_impulse_in)
  have f: "main_impulse g False cd b = Inr (b[0 := g])" if "length b = nat IR_SAMPLES" for b
    using main_impulse_in [OF that mf] by (simp add: IR_SAMPLES_eq)
  show ?thesis
    using m t [OF assms(5)] f [OF assms(5)] t [of "replicate (nat IR_SAMPLES) 0"]
      f [of "replicate (nat IR_SAMPLES) 0"]
    by (simp add: generate_channel_unfiltered place_impulses_no_taps)
qed

theorem main_impulse_index_witness:
  "fl (5854679515581645 / 1125899906842624 * 48000) = Some 249600 \<and>
   fl (249600 / 1000) = Some (8782019273372467 / 35184372088832) \<and>
   (0::real) \<le> 8782019273372467 / 35184372088832 \<and>
   (8782019273372467 / 35184372088832 :: real) < 3840 \<and>
   ms_to_samples (5854679515581645 / 1125899906842624) = Inr 249 \<and>
   generate_channel 1 [] True (5854679515581645 / 1125899906842624) None =
     Inr ((replicate 3840 0)[249 := 1]) \<and>
   generate_channel 1 [] False (5854679515581645 / 1125899906842624) None =
     Inr ((replicate 3840 0)[0 := 1]) \<and>
   generate_channel 1 [] True (6004799503160661 / 18014398509481984) None =
     Inr ((replicate 3840 0)[16 := 1])"
proof -
  have len: "length (replicate 3840 (0::real)) = nat IR_SAMPLES" by (simp add: IR_SAMPLES_eq)
  have q: "(0::real) \<le> 8782019273372467 / 35184372088832"
    "(8782019273372467 / 35184372088832 :: real) < 3840" by simp_all
  have fq: "\<lfloor>8782019273372467 / 35184372088832 :: real\<rfloor> = 249" by simp
  have q3: "(0::real) \<le> 16" "(16::real) < 3840" by simp_all
  note a = main_impulse_index [OF fl_5_2_product fl_5_2_quotient q len, of 1]
  note b = main_impulse_index [OF fl_third_product fl_third_quotient q3 len, of 1]
  show ?thesis
    using a b fl_5_2_product fl_5_2_quotient by (simp add: fq IR_SAMPLES_eq)
qed



text \<open>
  Claim C5 says that a cutoff that is not positive leaves the buffer unfiltered. The test
  of line 135 is the truth value of \<open>cross_lpf_freq\<close>, and a negative number is true: with
  the cutoff -3000 the cross channel is filtered, and differs from the unfiltered one.
\<close>

theorem lpf_gate_counterexample:
  "\<not> (0::real) < - 3000 \<and>
   generate_channel 1 [] True 0 None = Inr ((replicate 3840 0)[0 := 1]) \<and>
   generate_channel 1 [] True 0 (Some (- 3000)) \<noteq> Inr ((replicate 3840 0)[0 := 1])"
proof -
  have p: "place_impulses 1 [] True 0 = Inr ((replicate 3840 0)[0 := 1])"
    by (rule place_impulse_at_0)
  have z: "(replicate 3840 (0::real))[0 := 1] = 1 # replicate 3839 0"
    by (simp add: replicate_update_0)
  have "pi < 4" by (rule pi_less_4)
  then have "1 / 48000 < 1 / (6000 * pi)"
    using pi_gt_zero by (simp add: field_simps)
  then have d: "1 / (2 * pi * (- 3000)) + 1 / 48000 \<noteq> (0::real)" by simp
  have a: "lpf_alpha (- 3000) 48000 \<noteq> 1"
    using d pi_gt_zero by (simp add: lpf_alpha_def field_simps)
  have "generate_channel 1 [] True 0 (Some (- 3000)) =
          apply_lpf_to_impulse ((replicate 3840 0)[0 := 1]) (- 3000) 48000"
    by (simp add: generate_channel_def p truthy_def SAMPLE_RATE_def)
  also have "\<dots> = Inr (lpf_scan (lpf_alpha (- 3000) 48000) 0 (1 # replicate 3839 0))"
    using d by (simp only: z apply_lpf_Inr) (simp add: apply_lpf_Inr)
  finally have "generate_channel 1 [] True 0 (Some (- 3000)) \<noteq> Inr ((replicate 3840 0)[0 := 1])"
    using a by (simp add: z)
  then show ?thesis by (simp add: generate_channel_unfiltered p)
qed

text \<open>
  Claim C5, amended. The filter is applied to the placed buffer exactly when \<open>is_cross\<close>
  is true and \<open>cross_lpf_freq\<close> is a number other than zero; when \<open>is_cross\<close> is false or
  \<open>cross_lpf_freq\<close> is \<^verbatim>\<open>None\<close> or zero, the placed buffer is returned as it is.
\<close>

theorem lpf_gate:
  "(is_cross \<and> lpf = Some v \<and> v \<noteq> 0 \<longrightarrow>
      generate_channel g taps is_cross cd lpf =
        (case place_impulses g taps is_cross cd of
           Inl e \<Rightarrow> Inl e
         | Inr buf \<Rightarrow> apply_lpf_to_impulse buf v (real_of_int SAMPLE_RATE))) \<and>
   (\<not> is_cross \<or> lpf = None \<or> lpf = Some 0 \<longrightarrow>
      generate_channel g taps is_cross cd lpf = place_impulses g taps is_cross cd)"
  by (auto simp: generate_channel_def truthy_def split: sum.splits)

theorem lpf_gate_witness:
  "generate_channel 1 [] True 0 (Some 3000) =
     apply_lpf_to_impulse ((replicate 3840 0)[0 := 1]) 3000 48000 \<and>
   generate_channel 1 [] True 0 (Some 0) = Inr ((replicate 3840 0)[0 := 1]) \<and>
   generate_channel 1 [] False 0 (Some 3000) = Inr ((replicate 3840 0)[0 := 1])"
  using lpf_gate [of True "Some 3000" 3000 1 "[]" 0] lpf_gate [of True "Some 0" 0 1 "[]" 0]
    lpf_gate [of False "Some 3000" 3000 1 "[]" 0]
  by (simp add: place_impulse_at_0 SAMPLE_RATE_def)

text \<open>
  Claim C7 says that no input makes the synthesizer raise. A cross delay of -100 ms
  converts to the index -4800, below \<open>-IR_SAMPLES\<close>, and the assignment of line 125
  raises \<^verbatim>\<open>IndexError\<close>.
\<close>

theorem synth_raises_counterexample:
  "generate_channel 1 [] True (- 100) None = Inl IndexError"
proof -
  have "ms_to_samples (- 100) = Inr (- 4800)"
    using ms_to_samples_of_int [of "- 100"] by simp
  then have "main_impulse 1 True (- 100) (replicate (nat IR_SAMPLES) 0) = Inl IndexError"
    by (simp add: main_impulse_def main_index_def IR_SAMPLES_eq py_setitem_def py_index_def)
  then show ?thesis by (simp add: generate_channel_def place_impulses_def)
qed

text \<open>
  Claim C7, amended. When the delay of the main impulse and of every tap converts, without
  an infinite float on the way, to an index of at least \<open>-IR_SAMPLES\<close>, and the cutoff of
  a cross channel is absent, zero or positive, the synthesizer raises nothing and returns
  a buffer of \<open>IR_SAMPLES\<close> samples; a main impulse or a tap whose index is not less than
  \<open>IR_SAMPLES\<close> leaves the buffer as it was. Delays between 0 and \<open>10\<^sup>3\<^sup>0\<^sup>0\<close> ms convert, to
  indices that are not negative.
\<close>

theorem synth_no_exception:
  assumes "\<exists>d. main_index is_cross cd = Inr d \<and> - IR_SAMPLES \<le> d"
    and "\<forall>t\<in>set taps. \<exists>d. tap_index is_cross cd t = Inr d \<and> - IR_SAMPLES \<le> d"
    and "is_cross \<longrightarrow> lpf = None \<or> (\<exists>v. lpf = Some v \<and> 0 \<le> v)"
  shows "(\<exists>b. generate_channel g taps is_cross cd lpf = Inr b \<and> length b = nat IR_SAMPLES) \<and>
         (\<forall>d. main_index is_cross cd = Inr d \<and> IR_SAMPLES \<le> d \<longrightarrow>
              main_impulse g is_cross cd buf = Inr buf) \<and>
         (\<forall>d. tap_index is_cross cd t = Inr d \<and> IR_SAMPLES \<le> d \<longrightarrow>
              reflection_tap is_cross cd i t buf = Inr buf) \<and>
         ((is_cross \<longrightarrow> 0 \<le> cd \<and> cd \<le> 10 ^ 300) \<longrightarrow>
            (\<exists>d. main_index is_cross cd = Inr d \<and> 0 \<le> d)) \<and>
         (0 \<le> fst t \<and> fst t \<le> 10 ^ 300 \<and> (is_cross \<longrightarrow> 0 \<le> cd \<and> cd \<le> 10 ^ 300) \<longrightarrow>
            (\<exists>d. tap_index is_cross cd t = Inr d \<and> 0 \<le> d))"
proof -
  have "0 \<le> v" if "is_cross" "lpf = Some v" for v
    using that assms(3) by auto
  then have "\<exists>b. generate_channel g taps is_cross cd lpf = Inr b \<and> length b = nat IR_SAMPLES"
    using assms(1,2) by (intro generate_channel_ok) auto
  moreover have "(is_cross \<longrightarrow> 0 \<le> cd \<and> cd \<le> 10 ^ 300) \<longrightarrow>
            (\<exists>d. main_index is_cross cd = Inr d \<and> 0 \<le> d)"
    using main_index_ok [of is_cross cd] by blast
  moreover have "0 \<le> fst t \<and> fst t \<le> 10 ^ 300 \<and> (is_cross \<longrightarrow> 0 \<le> cd \<and> cd \<le> 10 ^ 300) \<longrightarrow>
            (\<exists>d. tap_index is_cross cd t = Inr d \<and> 0 \<le> d)"
    using tap_index_ok [of t is_cross cd] by blast
  ultimately show ?thesis
    using main_impulse_dropped [of is_cross cd _ g buf] reflection_tap_dropped [of is_cross cd t _ i buf]
    by blast
qed

theorem synth_no_exception_witness:
  "main_index True 100 = Inr 4800 \<and> tap_index True 100 (1, 1 / 2) = Inr 4848 \<and>
   (\<exists>b. generate_channel 1 [(1, 1 / 2)] True 100 (Some 3000) = Inr b \<and> length b = 3840) \<and>
   main_impulse 1 True 100 (replicate 3840 0) = Inr (replicate 3840 0) \<and>
   reflection_tap True 100 0 (1, 1 / 2) (replicate 3840 0) = Inr (replicate 3840 0)"
proof -
  note m = main_index_100 tap_index_101 [of "1 / 2"]
  have h1: "\<exists>d. main_index True 100 = Inr d \<and> - IR_SAMPLES \<le> d"
    by (simp add: m IR_SAMPLES_eq)
  have h2: "\<forall>t\<in>set [(1, 1 / 2)]. \<exists>d. tap_index True 100 t = Inr d \<and> - IR_SAMPLES \<le> d"
    by (simp add: m IR_SAMPLES_eq)
  have h3: "True \<longrightarrow> Some (3000::real) = None \<or> (\<exists>v. Some (3000::real) = Some v \<and> 0 \<le> v)"
    by simp
  note T = synth_no_exception [OF h1 h2 h3, of 1 "replicate 3840 0" "(1, 1 / 2)" 0]
  have "\<exists>b. generate_channel 1 [(1, 1 / 2)] True 100 (Some 3000) = Inr b \<and> length b = 3840"
    using T [THEN conjunct1] by (simp add: IR_SAMPLES_eq)
  moreover have "main_impulse 1 True 100 (replicate 3840 0) = Inr (replicate 3840 0)"
    using T [THEN conjunct2, THEN conjunct1] by (simp add: m IR_SAMPLES_eq)
  moreover have "reflection_tap True 100 0 (1, 1 / 2) (replicate 3840 0) = Inr (replicate 3840 0)"
    using T [THEN conjunct2, THEN conjunct2, THEN conjunct1] by (simp add: m IR_SAMPLES_eq)
  ultimately show ?thesis using m by blast
qed



section \<open>Properties of the writer and of \<open>generate_ir\<close>\<close>

lemma write_chunks_Inr: "write_chunks (map Inr bss) w = (w @ concat bss, Inr ())"
  by (induction bss arbitrary: w) simp_all

lemma write_chunks_fail: "write_chunks (map Inr bss @ Inl e # cs) w = (w @ concat bss, Inl e)"
  by (induction bss arbitrary: w) simp_all

lemma uint_byte: "uint (word_of_int (v mod 256) :: byte) = v mod 256"
  by (simp add: uint_word_of_int take_bit_eq_mod)

lemma le_bytes_length [simp]: "length (le_bytes n v) = n"
  by (induction n arbitrary: v) simp_all

lemma le_bytes_value:
  "0 \<le> v \<Longrightarrow> v < 256 ^ n \<Longrightarrow> (\<Sum>k<n. uint (le_bytes n v ! k) * 256 ^ k) = v"
proof (induction n arbitrary: v)
  case 0
  then show ?case by simp
next
  case (Suc n)
  have "v div 256 < 256 ^ n" using Suc.prems by (simp add: div_less_iff_less_mult mult.commute)
  moreover have "0 \<le> v div 256" using Suc.prems by simp
  ultimately have ih: "(\<Sum>k<n. uint (le_bytes n (v div 256) ! k) * 256 ^ k) = v div 256"
    by (rule Suc.IH [rotated])
  have "(\<Sum>k<Suc n. uint (le_bytes (Suc n) v ! k) * 256 ^ k)
        = v mod 256 + (\<Sum>k<n. uint (le_bytes n (v div 256) ! k) * 256 ^ Suc k)"
    by (simp add: sum.lessThan_Suc_shift uint_byte del: sum.lessThan_Suc)
  also have "\<dots> = v mod 256 + 256 * (\<Sum>k<n. uint (le_bytes n (v div 256) ! k) * 256 ^ k)"
    by (simp add: sum_distrib_left mult_ac)
  also have "\<dots> = v" by (simp add: ih)
  finally show ?case .
qed

lemma py_getitem_nat: "i < length xs \<Longrightarrow> py_getitem xs (int i) = Inr (xs ! i)"
  by (simp add: py_getitem_def py_index_def)

lemma sample_chunk_Inr:
  assumes "ch < length channels" "i < length (channels ! ch)"
    "pack_f (channels ! ch ! i) = Inr bs"
  shows "sample_chunk pack_f channels i ch = Inr bs"
  using assms by (simp add: sample_chunk_def py_getitem_nat)

lemma sample_chunks_Inr:
  assumes "\<forall>c\<in>set channels. length c = n"
    and "\<forall>c\<in>set channels. \<forall>x\<in>set c. pack_f x = Inr (enc x)"
  shows "concat (map (\<lambda>i. map (\<lambda>ch. sample_chunk pack_f channels i ch) [0..<length channels]) [0..<n])
       = map Inr (concat (map (\<lambda>i. map (\<lambda>ch. enc (channels ! ch ! i)) [0..<length channels]) [0..<n]))"
proof -
  have "sample_chunk pack_f channels i ch = Inr (enc (channels ! ch ! i))"
    if "i < n" "ch < length channels" for i ch
  proof -
    have c: "channels ! ch \<in> set channels" using that(2) by simp
    then have l: "i < length (channels ! ch)" using assms(1) that(1) by simp
    then have "channels ! ch ! i \<in> set (channels ! ch)" by simp
    then have "pack_f (channels ! ch ! i) = Inr (enc (channels ! ch ! i))" using assms(2) c by blast
    then show ?thesis using that(2) l by (rule sample_chunk_Inr [rotated 2])
  qed
  then have E: "map (\<lambda>i. map (\<lambda>ch. sample_chunk pack_f channels i ch) [0..<length channels]) [0..<n]
     = map (\<lambda>i. map (\<lambda>ch. Inr (enc (channels ! ch ! i))) [0..<length channels]) [0..<n]"
    by (intro map_cong refl) simp_all
  have "map Inr (concat (map (\<lambda>i. map (\<lambda>ch. enc (channels ! ch ! i)) [0..<length channels]) [0..<n]))
      = concat (map (\<lambda>i. map (\<lambda>ch. Inr (enc (channels ! ch ! i))) [0..<length channels]) [0..<n])"
    by (simp add: map_concat comp_def)
  then show ?thesis unfolding E by (rule sym)
qed

lemma py_getitem_hd: "xs \<noteq> [] \<Longrightarrow> py_getitem xs 0 = Inr (hd xs)"
  by (cases xs) (simp_all add: py_getitem_def py_index_def)

lemma concat_twice: "concat (concat xss) = concat (map concat xss)"
  by (induction xss) simp_all

lemma le_bytes_48000: "le_bytes 4 48000 = [128, 187, 0, 0]"
  by (simp add: eval_nat_numeral)

lemma preset_keys: "map_of PRESETS name = None \<longleftrightarrow> name \<notin> {''light'', ''medium'', ''heavy''}"
  by (simp add: PRESETS_def)

lemma preset_channels:
  assumes "0 \<le> cross_delay_ms p" "cross_delay_ms p \<le> 10 ^ 300" "0 < cross_lpf_freq p"
    and "\<forall>t\<in>set (reflections p). 0 \<le> fst t \<and> fst t \<le> 10 ^ 300"
    and "\<forall>t\<in>set (cross_reflections p). 0 \<le> fst t \<and> fst t \<le> 10 ^ 300"
  shows "\<exists>ll lr.
           generate_channel (direct_gain p) (reflections p) False 0 None = Inr ll \<and>
           generate_channel (cross_gain p) (cross_reflections p) True (cross_delay_ms p)
             (Some (cross_lpf_freq p)) = Inr lr \<and>
           length ll = nat IR_SAMPLES \<and> length lr = nat IR_SAMPLES \<and>
           ir_channels p = Inr [ll, ll, lr, lr]"
proof -
  have i: "- IR_SAMPLES \<le> 0" by (simp add: IR_SAMPLES_eq)
  have low: "\<exists>d. r = Inr d \<and> - IR_SAMPLES \<le> d" if "\<exists>d. r = Inr d \<and> 0 \<le> d" for r :: "error + int"
    using that i by fastforce
  have "\<forall>t\<in>set (reflections p). \<exists>d. tap_index False 0 t = Inr d \<and> - IR_SAMPLES \<le> d"
    using assms(4) tap_index_ok [of _ False 0] by (intro ballI low) simp
  moreover have "\<exists>d. main_index False 0 = Inr d \<and> - IR_SAMPLES \<le> d"
    using main_index_ok [of False 0] by (intro low) simp
  ultimately obtain ll where
    ll: "generate_channel (direct_gain p) (reflections p) False 0 None = Inr ll"
      "length ll = nat IR_SAMPLES"
    using generate_channel_ok [of False 0 "reflections p" None "direct_gain p"] by auto
  have "\<forall>t\<in>set (cross_reflections p).
          \<exists>d. tap_index True (cross_delay_ms p) t = Inr d \<and> - IR_SAMPLES \<le> d"
    using assms(1,2,5) tap_index_ok [of _ True "cross_delay_ms p"] by (intro ballI low) simp
  moreover have "\<exists>d. main_index True (cross_delay_ms p) = Inr d \<and> - IR_SAMPLES \<le> d"
    using assms(1,2) main_index_ok [of True "cross_delay_ms p"] by (intro low) simp
  ultimately obtain lr where
    lr: "generate_channel (cross_gain p) (cross_reflections p) True (cross_delay_ms p)
             (Some (cross_lpf_freq p)) = Inr lr" "length lr = nat IR_SAMPLES"
    using assms(3) generate_channel_ok [of True "cross_delay_ms p" "cross_reflections p"
        "Some (cross_lpf_freq p)" "cross_gain p"] by auto
  show ?thesis using ll lr by (simp add: ir_channels_def)
qed

section \<open>The claims about the writer and \<open>generate_ir\<close>\<close>

text \<open>
  Claim C1 says that the layout is produced for every sample rate and every list of
  channels. \<^verbatim>\<open>struct.pack\<close> raises on a value that does not fit its field: with one
  channel of one sample and the sample rate \<open>2\<^sup>3\<^sup>2\<close>, the writer stops at the sample-rate
  field with \<^verbatim>\<open>struct.error\<close> and leaves the first 24 bytes in the file.
\<close>

theorem wav_layout_overflow_counterexample:
  "write_wav (\<lambda>x::real. Inr [0, 0, 0, 0]) ''out.wav'' [[0]] 4294967296 Map.empty =
     ([''out.wav'' \<mapsto> ascii ''RIFF'' @ le_bytes 4 40 @ ascii ''WAVE'' @ ascii ''fmt ''
                       @ le_bytes 4 16 @ le_bytes 2 3 @ le_bytes 2 1],
      Inl StructError)"
  by (simp add: write_wav_def py_getitem_def py_index_def pack_I_def pack_H_def)

text \<open>
  Claim C1, amended. For \<open>N \<ge> 1\<close> channels of equal length whose samples \<open>pack_f\<close>
  encodes (as \<open>enc\<close>), with a sample rate that is not negative and with the block
  alignment \<open>4 N\<close> below \<open>2\<^sup>1\<^sup>6\<close>, the byte rate and \<open>36 + data_size\<close> below \<open>2\<^sup>3\<^sup>2\<close>,
  the file holds exactly: \<open>RIFF\<close>, \<open>36 + data_size\<close>, \<open>WAVE\<close>; \<open>fmt \<close>, 16, the format
  code 3, \<open>N\<close>, the sample rate, the byte rate \<open>sample_rate * N * 4\<close>, the block alignment
  \<open>N * 4\<close>, 32; \<open>data\<close>, \<open>data_size = num_samples * N * 4\<close>; and then, for each time index
  in order, the encoded sample of each channel in channel order. Every number is
  little-endian, in 4 or 2 bytes.
\<close>

theorem wav_layout:
  fixes channels :: "'s list list"
  assumes "channels \<noteq> []"
    and "\<forall>c\<in>set channels. length c = length (hd channels)"
    and "\<forall>c\<in>set channels. \<forall>x\<in>set c. pack_f x = Inr (enc x)"
    and "int (length channels) * 4 < 2 ^ 16"
    and "0 \<le> sample_rate"
    and "sample_rate * int (length channels) * 4 < 2 ^ 32"
    and "36 + int (length (hd channels)) * (int (length channels) * 4) < 2 ^ 32"
  shows "write_wav pack_f filepath channels sample_rate fs =
           (fs(filepath \<mapsto>
              ascii ''RIFF''
              @ le_bytes 4 (36 + int (length (hd channels)) * (int (length channels) * 4))
              @ ascii ''WAVE''
              @ ascii ''fmt '' @ le_bytes 4 16 @ le_bytes 2 3
              @ le_bytes 2 (int (length channels))
              @ le_bytes 4 sample_rate
              @ le_bytes 4 (sample_rate * int (length channels) * 4)
              @ le_bytes 2 (int (length channels) * 4)
              @ le_bytes 2 32
              @ ascii ''data''
              @ le_bytes 4 (int (length (hd channels)) * (int (length channels) * 4))
              @ concat (map (\<lambda>t. concat (map (\<lambda>ch. enc (channels ! ch ! t))
                                              [0..<length channels]))
                            [0..<length (hd channels)])),
            Inr ())"
proof -
  let ?N = "int (length channels)"
  let ?ns = "int (length (hd channels))"
  let ?payload = "concat (map (\<lambda>i. map (\<lambda>ch. enc (channels ! ch ! i)) [0..<length channels])
                              [0..<length (hd channels)])"
  have N1: "1 \<le> ?N" using assms(1) by (cases channels) simp_all
  have c0: "py_getitem channels 0 = Inr (hd channels)" using assms(1) by (rule py_getitem_hd)
  have "sample_rate * 1 \<le> sample_rate * (?N * 4)"
    using assms(5) N1 by (intro mult_left_mono) simp_all
  then have sr: "sample_rate < 2 ^ 32" using assms(6) by (simp add: mult.assoc)
  have ds: "0 \<le> ?ns * (?N * 4)" by simp
  then have ds': "?ns * (?N * 4) < 2 ^ 32" using assms(7) by linarith
  have packs:
    "pack_I (36 + ?ns * (?N * 4)) = Inr (le_bytes 4 (36 + ?ns * (?N * 4)))"
    "pack_I 16 = Inr (le_bytes 4 16)" "pack_H 3 = Inr (le_bytes 2 3)"
    "pack_H ?N = Inr (le_bytes 2 ?N)"
    "pack_I sample_rate = Inr (le_bytes 4 sample_rate)"
    "pack_I (sample_rate * ?N * 4) = Inr (le_bytes 4 (sample_rate * ?N * 4))"
    "pack_H (?N * 4) = Inr (le_bytes 2 (?N * 4))"
    "pack_H 32 = Inr (le_bytes 2 32)"
    "pack_I (?ns * (?N * 4)) = Inr (le_bytes 4 (?ns * (?N * 4)))"
    using assms(4-7) sr ds' N1 by (simp_all add: pack_I_def pack_H_def)
  have samples:
    "concat (map (\<lambda>i. map (\<lambda>ch. sample_chunk pack_f channels i ch) [0..<length channels])
                 [0..<length (hd channels)]) = map Inr ?payload"
    using assms(2,3) by (rule sample_chunks_Inr)
  let ?header = "[ascii ''RIFF'', le_bytes 4 (36 + ?ns * (?N * 4)), ascii ''WAVE'',
                 ascii ''fmt '', le_bytes 4 16, le_bytes 2 3, le_bytes 2 ?N,
                 le_bytes 4 sample_rate, le_bytes 4 (sample_rate * ?N * 4), le_bytes 2 (?N * 4),
                 le_bytes 2 32, ascii ''data'', le_bytes 4 (?ns * (?N * 4))]"
  have chunks: "[Inr (ascii ''RIFF''), pack_I (36 + ?ns * (?N * 4)), Inr (ascii ''WAVE''),
                 Inr (ascii ''fmt ''), pack_I 16, pack_H 3, pack_H ?N,
                 pack_I sample_rate, pack_I (sample_rate * ?N * 4), pack_H (?N * 4),
                 pack_H 32, Inr (ascii ''data''), pack_I (?ns * (?N * 4))]
                @ concat (map (\<lambda>i. map (\<lambda>ch. sample_chunk pack_f channels i ch) [0..<length channels])
                 [0..<length (hd channels)])
        = map Inr (?header @ ?payload)"
    by (simp only: packs samples) simp
  have "concat ?payload = concat (map (\<lambda>t. concat (map (\<lambda>ch. enc (channels ! ch ! t))
                                              [0..<length channels]))
                            [0..<length (hd channels)])"
    by (simp add: concat_twice comp_def)
  then have "write_chunks (map Inr (?header @ ?payload)) [] =
     (ascii ''RIFF''
              @ le_bytes 4 (36 + ?ns * (?N * 4))
              @ ascii ''WAVE''
              @ ascii ''fmt '' @ le_bytes 4 16 @ le_bytes 2 3
              @ le_bytes 2 ?N
              @ le_bytes 4 sample_rate
              @ le_bytes 4 (sample_rate * ?N * 4)
              @ le_bytes 2 (?N * 4)
              @ le_bytes 2 32
              @ ascii ''data''
              @ le_bytes 4 (?ns * (?N * 4))
              @ concat (map (\<lambda>t. concat (map (\<lambda>ch. enc (channels ! ch ! t))
                                              [0..<length channels]))
                            [0..<length (hd channels)]), Inr ())"
    by (simp only: write_chunks_Inr) simp
  then show ?thesis
    using chunks by (simp add: write_wav_def c0 Let_def)
qed

theorem wav_layout_witness:
  "write_wav (\<lambda>x. Inr [x, 0, 0, 0]) ''o.wav'' [[1, 2], [3, 4]] 48000 Map.empty =
     ([''o.wav'' \<mapsto> ascii ''RIFF'' @ le_bytes 4 52 @ ascii ''WAVE''
                     @ ascii ''fmt '' @ le_bytes 4 16 @ le_bytes 2 3 @ le_bytes 2 2
                     @ le_bytes 4 48000 @ le_bytes 4 384000 @ le_bytes 2 8 @ le_bytes 2 32
                     @ ascii ''data'' @ le_bytes 4 16
                     @ [1, 0, 0, 0, 3, 0, 0, 0, 2, 0, 0, 0, 4, 0, 0, 0]],
      Inr ())"
  using wav_layout [of "[[1, 2], [3, 4]]" "\<lambda>x. Inr [x, 0, 0, 0]" "\<lambda>x::byte. [x, 0, 0, 0]" 48000
      "''o.wav''" Map.empty]
  by (simp add: upt_rec)

text \<open>
  Claim C3. For each of the three presets both synthesizer calls return, \<open>ir_channels\<close>
  is the list \<open>[ll, ll, lr, lr]\<close> of their two results, so channel 1 equals channel 0 and
  channel 3 equals channel 2 value for value, and these four channels are what
  \<open>generate_ir\<close> hands to the writer.
\<close>

theorem mirrored_channels:
  "\<forall>name\<in>{''light'', ''medium'', ''heavy''}.
     \<exists>p ll lr.
       map_of PRESETS name = Some p \<and>
       generate_channel (direct_gain p) (reflections p) False 0 None = Inr ll \<and>
       generate_channel (cross_gain p) (cross_reflections p) True (cross_delay_ms p)
         (Some (cross_lpf_freq p)) = Inr lr \<and>
       length ll = nat IR_SAMPLES \<and> length lr = nat IR_SAMPLES \<and>
       ir_channels p = Inr [ll, ll, lr, lr] \<and>
       (\<forall>pack_f output_path fs.
          generate_ir pack_f name output_path fs =
            write_wav pack_f output_path [ll, ll, lr, lr] SAMPLE_RATE fs)"
proof -
  have step: "\<exists>p ll lr.
       map_of PRESETS name = Some p \<and>
       generate_channel (direct_gain p) (reflections p) False 0 None = Inr ll \<and>
       generate_channel (cross_gain p) (cross_reflections p) True (cross_delay_ms p)
         (Some (cross_lpf_freq p)) = Inr lr \<and>
       length ll = nat IR_SAMPLES \<and> length lr = nat IR_SAMPLES \<and>
       ir_channels p = Inr [ll, ll, lr, lr] \<and>
       (\<forall>pack_f output_path fs.
          generate_ir pack_f name output_path fs =
            write_wav pack_f output_path [ll, ll, lr, lr] SAMPLE_RATE fs)"
    if p: "map_of PRESETS name = Some p"
      and ok: "0 \<le> cross_delay_ms p" "cross_delay_ms p \<le> 10 ^ 300" "0 < cross_lpf_freq p"
        "\<forall>t\<in>set (reflections p). 0 \<le> fst t \<and> fst t \<le> 10 ^ 300"
        "\<forall>t\<in>set (cross_reflections p). 0 \<le> fst t \<and> fst t \<le> 10 ^ 300"
    for name p
  proof -
    from preset_channels [OF ok] obtain ll lr where
      c: "generate_channel (direct_gain p) (reflections p) False 0 None = Inr ll"
         "generate_channel (cross_gain p) (cross_reflections p) True (cross_delay_ms p)
             (Some (cross_lpf_freq p)) = Inr lr"
         "length ll = nat IR_SAMPLES" "length lr = nat IR_SAMPLES"
         "ir_channels p = Inr [ll, ll, lr, lr]"
      by blast
    have "generate_ir pack_f name output_path fs =
            write_wav pack_f output_path [ll, ll, lr, lr] SAMPLE_RATE fs" for pack_f output_path fs
      by (simp add: generate_ir_def p c(5))
    with p c show ?thesis by blast
  qed
  have "map_of PRESETS ''light'' = Some preset_light" "map_of PRESETS ''medium'' = Some preset_medium"
    "map_of PRESETS ''heavy'' = Some preset_heavy"
    by (simp_all add: PRESETS_def)
  then show ?thesis
    using step [of "''light''" preset_light] step [of "''medium''" preset_medium]
      step [of "''heavy''" preset_heavy]
    by (simp add: preset_light_def preset_medium_def preset_heavy_def)
qed

theorem mirrored_channels_witness:
  "''medium'' \<in> {''light'', ''medium'', ''heavy''} \<and>
   (\<exists>ll lr. ir_channels preset_medium = Inr [ll, ll, lr, lr] \<and>
      generate_ir (\<lambda>x. Inr []) ''medium'' ''spatial_medium.wav'' Map.empty =
        write_wav (\<lambda>x. Inr []) ''spatial_medium.wav'' [ll, ll, lr, lr] 48000 Map.empty)"
proof -
  have m: "map_of PRESETS ''medium'' = Some preset_medium" by (simp add: PRESETS_def)
  from mirrored_channels [rule_format, of "''medium''"] m
  show ?thesis by (fastforce simp: SAMPLE_RATE_def)
qed

text \<open>
  Claim C8. A preset name other than \<open>light\<close>, \<open>medium\<close> and \<open>heavy\<close> makes
  \<open>generate_ir\<close> raise \<^verbatim>\<open>ValueError\<close> with the three valid names in its message, and the
  file system is the one it started with.
\<close>

theorem unknown_preset:
  assumes "preset_name \<notin> {''light'', ''medium'', ''heavy''}"
  shows "generate_ir pack_f preset_name output_path fs =
           (fs, Inl (ValueError (''Unknown preset: '' @ preset_name
                                 @ ''. Choose from: light, medium, heavy'')))"
proof -
  have "map_of PRESETS preset_name = None" using assms by (simp add: preset_keys)
  moreover have "join '', '' (map fst PRESETS) = ''light, medium, heavy''"
    by (simp add: PRESETS_def)
  ultimately show ?thesis by (simp add: generate_ir_def)
qed

theorem unknown_preset_witness:
  "''ultra'' \<notin> {''light'', ''medium'', ''heavy''} \<and>
   generate_ir (\<lambda>x. Inr []) ''ultra'' ''spatial_ultra.wav'' Map.empty =
     (Map.empty, Inl (ValueError ''Unknown preset: ultra. Choose from: light, medium, heavy''))"
  using unknown_preset [of "''ultra''" "\<lambda>x. Inr []" "''spatial_ultra.wav''" Map.empty] by simp

end
